theory Spec2Isabelle
  imports Complex_Main "HOL-Library.AList" "HOL-Library.Multiset"
begin

section \<open>Data model\<close>

subsection \<open>three.js objects\<close>

text \<open>
  A model node is a three.js \<open>Object3D\<close>. Only the fields that \<open>_inflate\<close> reads or
  writes are kept. JavaScript numbers are only copied by \<open>_inflate\<close>, never computed with,
  so they are carried as reals.
\<close>

type_synonym vector3 = "real \<times> real \<times> real"
type_synonym quat = "real \<times> real \<times> real \<times> real"

datatype euler = Euler (ex: real) (ey: real) (ez: real) (order: string)

datatype object3D = Object3D
  (name: string)
  (type: string)
  (children: "object3D list")
  (position: vector3)
  (rotation: euler)
  (quaternion: quat)
  (scale: vector3)
  (matrix: "real list")
  (matrixAutoUpdate: bool)
  (matrixNeedsUpdate: bool)
  (uuid: string)
  (visible: bool)

text \<open>Field assignments. Each one rebuilds the object with one field replaced.\<close>

definition set_name :: "string \<Rightarrow> object3D \<Rightarrow> object3D" where
  "set_name v n =
     Object3D v (type n) (children n) (position n) (rotation n) (quaternion n)
       (scale n) (matrix n) (matrixAutoUpdate n) (matrixNeedsUpdate n) (uuid n) (visible n)"

definition set_children :: "object3D list \<Rightarrow> object3D \<Rightarrow> object3D" where
  "set_children v n =
     Object3D (name n) (type n) v (position n) (rotation n) (quaternion n)
       (scale n) (matrix n) (matrixAutoUpdate n) (matrixNeedsUpdate n) (uuid n) (visible n)"

definition set_position :: "vector3 \<Rightarrow> object3D \<Rightarrow> object3D" where
  "set_position v n =
     Object3D (name n) (type n) (children n) v (rotation n) (quaternion n)
       (scale n) (matrix n) (matrixAutoUpdate n) (matrixNeedsUpdate n) (uuid n) (visible n)"

definition set_rotation :: "euler \<Rightarrow> object3D \<Rightarrow> object3D" where
  "set_rotation v n =
     Object3D (name n) (type n) (children n) (position n) v (quaternion n)
       (scale n) (matrix n) (matrixAutoUpdate n) (matrixNeedsUpdate n) (uuid n) (visible n)"

definition set_quaternion :: "quat \<Rightarrow> object3D \<Rightarrow> object3D" where
  "set_quaternion v n =
     Object3D (name n) (type n) (children n) (position n) (rotation n) v
       (scale n) (matrix n) (matrixAutoUpdate n) (matrixNeedsUpdate n) (uuid n) (visible n)"

definition set_scale :: "vector3 \<Rightarrow> object3D \<Rightarrow> object3D" where
  "set_scale v n =
     Object3D (name n) (type n) (children n) (position n) (rotation n) (quaternion n)
       v (matrix n) (matrixAutoUpdate n) (matrixNeedsUpdate n) (uuid n) (visible n)"

definition set_matrix :: "real list \<Rightarrow> object3D \<Rightarrow> object3D" where
  "set_matrix v n =
     Object3D (name n) (type n) (children n) (position n) (rotation n) (quaternion n)
       (scale n) v (matrixAutoUpdate n) (matrixNeedsUpdate n) (uuid n) (visible n)"

definition set_matrixAutoUpdate :: "bool \<Rightarrow> object3D \<Rightarrow> object3D" where
  "set_matrixAutoUpdate v n =
     Object3D (name n) (type n) (children n) (position n) (rotation n) (quaternion n)
       (scale n) (matrix n) v (matrixNeedsUpdate n) (uuid n) (visible n)"

definition set_matrixNeedsUpdate :: "bool \<Rightarrow> object3D \<Rightarrow> object3D" where
  "set_matrixNeedsUpdate v n =
     Object3D (name n) (type n) (children n) (position n) (rotation n) (quaternion n)
       (scale n) (matrix n) (matrixAutoUpdate n) v (uuid n) (visible n)"

definition set_uuid :: "string \<Rightarrow> object3D \<Rightarrow> object3D" where
  "set_uuid v n =
     Object3D (name n) (type n) (children n) (position n) (rotation n) (quaternion n)
       (scale n) (matrix n) (matrixAutoUpdate n) (matrixNeedsUpdate n) v (visible n)"

definition set_visible :: "bool \<Rightarrow> object3D \<Rightarrow> object3D" where
  "set_visible v n =
     Object3D (name n) (type n) (children n) (position n) (rotation n) (quaternion n)
       (scale n) (matrix n) (matrixAutoUpdate n) (matrixNeedsUpdate n) (uuid n) v"

text \<open>\<open>Matrix4.identity()\<close>: the sixteen elements, column-major.\<close>

definition identity :: "real list" where
  "identity = [1, 0, 0, 0,  0, 1, 0, 0,  0, 0, 1, 0,  0, 0, 0, 1]"

definition decompose_identity :: "object3D \<Rightarrow> object3D" where
  \<comment> \<open>Modelled from the spec: three.js \<open>Matrix4.decompose\<close> is not in the repository. The
      source calls it right after \<open>node.matrix.identity()\<close>, with the node's own position,
      rotation and scale as targets; the spec gives what it leaves there: zero offset, zero
      rotation, unit scale. The rotation target keeps its axis order, and three.js keeps
      the node's quaternion in step with its rotation.\<close>
  "decompose_identity n =
     set_scale (1, 1, 1)
       (set_quaternion (0, 0, 0, 1)
         (set_rotation (Euler 0 0 0 (order (rotation n)))
           (set_position (0, 0, 0) n)))"

definition new_Group :: object3D where
  \<comment> \<open>\<open>new THREE.Group()\<close>, the \<open>object3D\<close> of an entity that has just been created. three.js
      gives it a random uuid of its own; \<open>_inflate\<close> overwrites that uuid before it returns
      the entity, so the empty string stands for it here.\<close>
  "new_Group = Object3D [] ''Group'' [] (0, 0, 0) (Euler 0 0 0 ''XYZ'') (0, 0, 0, 1) (1, 1, 1)
     identity True False [] True"

subsection \<open>DOM elements\<close>

text \<open>
  The content of a \<open><template>\<close> is plain markup. An entity element carries, besides its
  DOM fields, the \<open>object3D\<close> group and the \<open>object3DMap\<close> that A-Frame keeps for it. The
  descendants that come along when a template element is cloned are kept as markup:
  \<open>_inflate\<close> never looks at them, and the groups that A-Frame makes for them are not
  part of the model.

  The DOM and A-Frame calls are modelled by what they do to these fields. An attribute
  set with \<open>setAttribute\<close> is kept in \<open>attributes\<close>; it is a field of its own, apart from the
  group's \<open>position\<close> and \<open>rotation\<close>, which \<open>_inflate\<close> writes directly. The exceptions
  that the host raises on its own account (\<open>querySelector\<close> on a selector that a node name
  with a quote breaks, \<open>classList.add\<close> of an empty token) are not modelled.
\<close>

datatype markup = Markup
  (m_localName: string)
  (m_attributes: "(string \<times> string) list")
  (m_classList: "string list")
  (m_childNodes: "markup list")

datatype element =
  Element
    (localName: string)
    (attributes: "(string \<times> string) list")
    (classList: "string list")
    (childNodes: "element list")
    (object3D: object3D)
    (object3DMap: "(string \<times> object3D) list")
  | Cloned markup

datatype template = Template (firstElementChild: "markup option")

definition createElement :: "string \<Rightarrow> element" where
  "createElement tag = Element tag [] [] [] new_Group []"

definition cloneNode :: "markup \<Rightarrow> element" where
  \<comment> \<open>\<open>cloneNode(true)\<close> of a template's element: an entity element with the markup's
      tag, attributes and classes, as new as one made by \<open>createElement\<close>\<close>
  "cloneNode m =
     Element (m_localName m) (m_attributes m) (m_classList m) (map Cloned (m_childNodes m))
       new_Group []"

fun setAttribute :: "string \<Rightarrow> string \<Rightarrow> element \<Rightarrow> element" where
  "setAttribute k v (Element l a c ch g m) = Element l (AList.update k v a) c ch g m"
| "setAttribute k v (Cloned x) = Cloned x"

definition getAttribute :: "string \<Rightarrow> element \<Rightarrow> string option" where
  "getAttribute k el = map_of (attributes el) k"

fun appendChild :: "element \<Rightarrow> element \<Rightarrow> element" where
  "appendChild child (Element l a c ch g m) = Element l a c (ch @ [child]) g m"
| "appendChild child (Cloned x) = Cloned x"

fun classList_add :: "string \<Rightarrow> element \<Rightarrow> element" where
  "classList_add cls (Element l a c ch g m) =
     Element l a (if cls \<in> set c then c else c @ [cls]) ch g m"
| "classList_add cls (Cloned x) = Cloned x"

fun set_object3D :: "object3D \<Rightarrow> element \<Rightarrow> element" where
  "set_object3D g' (Element l a c ch g m) = Element l a c ch g' m"
| "set_object3D g' (Cloned x) = Cloned x"

fun setObject3D :: "string \<Rightarrow> object3D \<Rightarrow> element \<Rightarrow> element" where
  \<comment> \<open>A-Frame's \<open>el.setObject3D(type, obj)\<close>: the object is stored under the key. It also
      re-parents the object, which takes it out of its former parent's \<open>children\<close>; that
      half is in \<open>inflate_children\<close>.\<close>
  "setObject3D k obj (Element l a c ch g m) = Element l a c ch g (AList.update k obj m)"
| "setObject3D k obj (Cloned x) = Cloned x"

subsection \<open>Strings\<close>

definition toLowerCase :: "string \<Rightarrow> string" where
  "toLowerCase s =
     map (\<lambda>c. case map_of (zip ''ABCDEFGHIJKLMNOPQRSTUVWXYZ'' ''abcdefghijklmnopqrstuvwxyz'') c of
                 Some l \<Rightarrow> l
               | None \<Rightarrow> c) s"

definition word_char :: "char \<Rightarrow> bool" where
  \<comment> \<open>the characters that \<open>/[^\w-]/g\<close> leaves in place\<close>
  "word_char c =
     (c \<in> set ''ABCDEFGHIJKLMNOPQRSTUVWXYZabcdefghijklmnopqrstuvwxyz0123456789_-'')"

definition className :: "object3D \<Rightarrow> string" where
  \<comment> \<open>\<open>(node.name || node.uuid).replace(/[^\w-]/g, '')\<close>\<close>
  "className node = filter word_char (if name node \<noteq> [] then name node else uuid node)"

subsection \<open>The component and its surroundings\<close>

text \<open>
  What \<open>_inflate\<close> reads from outside the node: the component's \<open>data\<close> flags, the
  template that \<open>this.el.querySelector\<close> finds for a node name (\<open>None\<close> for \<open>null\<close>; the
  entities made by the traversal are not below \<open>this.el\<close> while it runs, so the lookup is
  the same function throughout), the
  conversion that \<open>Euler.setFromQuaternion\<close> computes, and the values that
  \<open>THREE.MathUtils.generateUUID()\<close> returns: \<open>generateUUID this k\<close> is the value returned by
  the call number \<open>k\<close> that \<open>_inflate\<close> makes. The number of calls made so far is the state
  threaded through the traversal.
\<close>

record component =
  hands :: bool
  shirt :: bool
  head :: bool
  querySelector :: "string \<Rightarrow> template option"
  setFromQuaternion :: "quat \<Rightarrow> string \<Rightarrow> vector3"
  generateUUID :: "nat \<Rightarrow> string"

section \<open>The inflation\<close>

definition set_visibility :: "component \<Rightarrow> object3D \<Rightarrow> object3D" where
  \<comment> \<open>lines 50-61\<close>
  "set_visibility this node =
     (if type node = ''SkinnedMesh'' then
        (if name node = ''Wolf3D_Hands'' then set_visible (hands this) node
         else if name node = ''Wolf3D_Shirt'' then set_visible (shirt this) node
         else set_visible (head this) node)
      else node)"

definition shell :: "component \<Rightarrow> object3D \<Rightarrow> element" where
  \<comment> \<open>lines 81-86: the template's clone when there is a template with content, a plain
      entity otherwise\<close>
  "shell this node =
     (case querySelector this (name node) of
        None \<Rightarrow> createElement ''a-entity''
      | Some nodeTemplate \<Rightarrow>
          (case firstElementChild nodeTemplate of
             None \<Rightarrow> createElement ''a-entity''
           | Some content \<Rightarrow> cloneNode content))"

definition scene_attributes :: "object3D \<Rightarrow> element \<Rightarrow> element" where
  \<comment> \<open>lines 89-95\<close>
  "scene_attributes node el =
     (if name node = ''Scene''
      then setAttribute ''rotation'' ''0 180 0'' (setAttribute ''position'' ''0 -0.65 0'' el)
      else el)"

definition normalize_rotation :: "component \<Rightarrow> object3D \<Rightarrow> object3D" where
  \<comment> \<open>lines 106-108\<close>
  "normalize_rotation this node =
     (if order (rotation node) \<noteq> ''YXZ''
      then (case setFromQuaternion this (quaternion node) ''YXZ'' of
              (x, y, z) \<Rightarrow> set_rotation (Euler x y z ''YXZ'') node)
      else node)"

definition wrap :: "component \<Rightarrow> object3D \<Rightarrow> element list \<Rightarrow> nat \<Rightarrow> object3D \<times> element" where
  \<comment> \<open>lines 81-134, for a node that becomes an entity. \<open>setObject3D\<close> at line 120 stores a
      reference to the node, and line 132 changes the node's uuid after that; the object
      stored is therefore the node as it is when the call returns.\<close>
  "wrap this node childrenEntities s =
     (let el = shell this node;
          el = setAttribute ''name'' (name node) el;
          el = scene_attributes node el;
          el = foldl (\<lambda>el childEntity. appendChild childEntity el) el childrenEntities;
          el = classList_add (className node) el;
          node = normalize_rotation this node;
          el = set_object3D (set_position (position node) (object3D el)) el;
          el = set_object3D (set_rotation (rotation node) (object3D el)) el;
          el = set_object3D (set_matrixNeedsUpdate True (object3D el)) el;
          node = set_matrixAutoUpdate False node;
          node = set_matrix identity node;
          node = decompose_identity node;
          el = set_object3D (set_name (name node) (object3D el)) el;
          el = set_object3D (set_uuid (uuid node) (object3D el)) el;
          node = set_uuid (generateUUID this s) node;
          el = setObject3D (toLowerCase (type node)) node el
      in (node, el))"

lemma children_set_visibility: "children (set_visibility this node) = children node"
  by (simp add: set_visibility_def set_visible_def)

lemma size_children: "size_list size (children n) < size n"
  by (cases n) simp

function inflate :: "component \<Rightarrow> object3D \<Rightarrow> nat \<Rightarrow> object3D \<times> element option \<times> nat"
  and inflate_children ::
    "component \<Rightarrow> object3D list \<Rightarrow> nat \<Rightarrow> object3D list \<times> element list \<times> nat"
where
  "inflate this node s =
     (let node = set_visibility this node
      in case inflate_children this (children node) s of
           (live, childrenEntities, s') \<Rightarrow>
             (let node = set_children live node
              in if name node \<noteq> ''Scene'' \<and> querySelector this (name node) = None
                    \<and> childrenEntities = []
                 then (node, None, s')
                 else (case wrap this node childrenEntities s' of
                         (node, el) \<Rightarrow> (node, Some el, Suc s'))))"
| "inflate_children this [] s = ([], [], s)"
| "inflate_children this (child # rest) s =
     (case inflate this child s of
        (child', childEntity, s') \<Rightarrow>
          (case inflate_children this rest s' of
             (live, childrenEntities, s'') \<Rightarrow>
               (case childEntity of
                  None \<Rightarrow> (child' # live, childrenEntities, s'')
                | Some el \<Rightarrow> (live, el # childrenEntities, s''))))"
  by pat_completeness auto
termination
  by (relation "measure (\<lambda>x. case x of Inl (this, node, s) \<Rightarrow> size node
                                     | Inr (this, nodes, s) \<Rightarrow> size_list size nodes)")
     (auto simp: size_children children_set_visibility)

text \<open>
  \<open>inflate this node s\<close> is \<open>_inflate(node)\<close> (lines 49-135 of
  \<open>readyplayerme-avatar.js\<close>) run when \<open>s\<close> tokens have been generated. It returns the node
  as the call leaves it, the entity returned (\<open>None\<close> for the bare \<open>return\<close> of line 76)
  and the number of tokens generated by then. \<open>inflate_children\<close> is the loop of lines
  64-71 over the copy \<open>node.children.slice(0)\<close>: it returns the children that are still
  the node's own afterwards (an inflated child has been re-parented by \<open>setObject3D\<close>) and
  \<open>childrenEntities\<close>.
\<close>

definition node_after :: "component \<Rightarrow> object3D \<Rightarrow> nat \<Rightarrow> object3D" where
  "node_after this node s = fst (inflate this node s)"

definition entity_of :: "component \<Rightarrow> object3D \<Rightarrow> nat \<Rightarrow> element option" where
  "entity_of this node s = fst (snd (inflate this node s))"

definition calls_after :: "component \<Rightarrow> object3D \<Rightarrow> nat \<Rightarrow> nat" where
  "calls_after this node s = snd (snd (inflate this node s))"

subsection \<open>The earlier \<open>_inflate\<close>\<close>

text \<open>
  The repository holds a second \<open>_inflate\<close> (lines 37-115 of the unnamed source file
  \<open>part_000\<close>). It differs from the one above in two places. Line 67 clones
  \<open>nodeTemplate.content.firstElementChild\<close> whenever a template is found; when the
  template has no element, \<open>firstElementChild\<close> is \<open>null\<close> and the call of \<open>cloneNode\<close> on it
  throws a \<open>TypeError\<close>, which ends the whole traversal. And the \<open>name\<close> attribute is not
  set on the element.

  A third \<open>_inflate\<close> (the second half of \<open>readyplayerme-avatar.js\<close>) is the first one
  without the \<open>name\<close> attribute and with two assignments to the component
  (\<open>this.rightEye\<close>, \<open>this.leftEye\<close>); it treats nodes, templates and entities as the first
  one does.
\<close>

datatype error = TypeError

definition shell0 :: "component \<Rightarrow> object3D \<Rightarrow> error + element" where
  \<comment> \<open>line 67\<close>
  "shell0 this node =
     (case querySelector this (name node) of
        None \<Rightarrow> Inr (createElement ''a-entity'')
      | Some nodeTemplate \<Rightarrow>
          (case firstElementChild nodeTemplate of
             None \<Rightarrow> Inl TypeError
           | Some content \<Rightarrow> Inr (cloneNode content)))"

definition wrap0 ::
  "component \<Rightarrow> object3D \<Rightarrow> element \<Rightarrow> element list \<Rightarrow> nat \<Rightarrow> object3D \<times> element" where
  \<comment> \<open>lines 69-114, from the element that line 67 made\<close>
  "wrap0 this node el childrenEntities s =
     (let el = scene_attributes node el;
          el = foldl (\<lambda>el childEntity. appendChild childEntity el) el childrenEntities;
          el = classList_add (className node) el;
          node = normalize_rotation this node;
          el = set_object3D (set_position (position node) (object3D el)) el;
          el = set_object3D (set_rotation (rotation node) (object3D el)) el;
          el = set_object3D (set_matrixNeedsUpdate True (object3D el)) el;
          node = set_matrixAutoUpdate False node;
          node = set_matrix identity node;
          node = decompose_identity node;
          el = set_object3D (set_name (name node) (object3D el)) el;
          el = set_object3D (set_uuid (uuid node) (object3D el)) el;
          node = set_uuid (generateUUID this s) node;
          el = setObject3D (toLowerCase (type node)) node el
      in (node, el))"

function inflate0 ::
    "component \<Rightarrow> object3D \<Rightarrow> nat \<Rightarrow> error + object3D \<times> element option \<times> nat"
  and inflate0_children ::
    "component \<Rightarrow> object3D list \<Rightarrow> nat \<Rightarrow> error + object3D list \<times> element list \<times> nat"
where
  "inflate0 this node s =
     (let node = set_visibility this node
      in case inflate0_children this (children node) s of
           Inl e \<Rightarrow> Inl e
         | Inr (live, childrenEntities, s') \<Rightarrow>
             (let node = set_children live node
              in if name node \<noteq> ''Scene'' \<and> querySelector this (name node) = None
                    \<and> childrenEntities = []
                 then Inr (node, None, s')
                 else (case shell0 this node of
                         Inl e \<Rightarrow> Inl e
                       | Inr el \<Rightarrow>
                           (case wrap0 this node el childrenEntities s' of
                              (node, el) \<Rightarrow> Inr (node, Some el, Suc s')))))"
| "inflate0_children this [] s = Inr ([], [], s)"
| "inflate0_children this (child # rest) s =
     (case inflate0 this child s of
        Inl e \<Rightarrow> Inl e
      | Inr (child', childEntity, s') \<Rightarrow>
          (case inflate0_children this rest s' of
             Inl e \<Rightarrow> Inl e
           | Inr (live, childrenEntities, s'') \<Rightarrow>
               (case childEntity of
                  None \<Rightarrow> Inr (child' # live, childrenEntities, s'')
                | Some el \<Rightarrow> Inr (live, el # childrenEntities, s''))))"
  by pat_completeness auto
termination
  by (relation "measure (\<lambda>x. case x of Inl (this, node, s) \<Rightarrow> size node
                                     | Inr (this, nodes, s) \<Rightarrow> size_list size nodes)")
     (auto simp: size_children children_set_visibility)

text \<open>The three results of the loop, and the two parts of the test of line 74.\<close>

definition live_children :: "component \<Rightarrow> object3D list \<Rightarrow> nat \<Rightarrow> object3D list" where
  "live_children this nodes s = fst (inflate_children this nodes s)"

definition childrenEntities :: "component \<Rightarrow> object3D list \<Rightarrow> nat \<Rightarrow> element list" where
  "childrenEntities this nodes s = fst (snd (inflate_children this nodes s))"

definition calls_after_children :: "component \<Rightarrow> object3D list \<Rightarrow> nat \<Rightarrow> nat" where
  "calls_after_children this nodes s = snd (snd (inflate_children this nodes s))"

definition included :: "component \<Rightarrow> object3D \<Rightarrow> nat \<Rightarrow> bool" where
  "included this node s =
     (\<not> (name node \<noteq> ''Scene'' \<and> querySelector this (name node) = None
         \<and> childrenEntities this (children node) s = []))"

definition visited :: "component \<Rightarrow> object3D \<Rightarrow> nat \<Rightarrow> object3D" where
  \<comment> \<open>the node when line 73 is reached\<close>
  "visited this node s =
     set_children (live_children this (children node) s) (set_visibility this node)"

text \<open>
  The two objects that wrapping a node leaves behind: the node itself, stripped of its
  transform and given a new uuid, and the group of the new entity, which takes the node's
  position, rotation, name and uuid.
\<close>

definition stripped :: "component \<Rightarrow> object3D \<Rightarrow> nat \<Rightarrow> object3D" where
  "stripped this node s =
     set_uuid (generateUUID this s)
       (decompose_identity
         (set_matrix identity (set_matrixAutoUpdate False (normalize_rotation this node))))"

definition group_of :: "component \<Rightarrow> object3D \<Rightarrow> object3D" where
  "group_of this node =
     set_uuid (uuid node)
       (set_name (name node)
         (set_matrixNeedsUpdate True
           (set_rotation (rotation (normalize_rotation this node))
             (set_position (position node) new_Group))))"

section \<open>The inclusion policy in the spec's words\<close>

fun qualifies :: "component \<Rightarrow> object3D \<Rightarrow> bool" where
  "qualifies this (Object3D nm ty cs p r q sc m mau mnu u v) =
     (nm = ''Scene'' \<or> querySelector this nm \<noteq> None \<or> (\<exists>child \<in> set cs. qualifies this child))"

text \<open>
  What a pruned node is left as: the visibility rule of lines 50-61 applied to the node
  and to every node below it, and nothing else.
\<close>

fun set_visibility_deep :: "component \<Rightarrow> object3D \<Rightarrow> object3D" where
  "set_visibility_deep this (Object3D nm ty cs p r q sc m mau mnu u v) =
     set_visibility this (Object3D nm ty (map (set_visibility_deep this) cs) p r q sc m mau mnu u v)"

section \<open>Walking the two trees\<close>

text \<open>
  The nodes of a model tree and the entity elements of an element tree, each with the
  root first. Cloned markup is not an entity of the traversal.
\<close>

fun tree_nodes :: "object3D \<Rightarrow> object3D list" where
  "tree_nodes (Object3D nm ty cs p r q sc m mau mnu u v) =
     Object3D nm ty cs p r q sc m mau mnu u v # concat (map tree_nodes cs)"

fun tree_elements :: "element \<Rightarrow> element list" where
  "tree_elements (Element l a c ch g m) = Element l a c ch g m # concat (map tree_elements ch)"
| "tree_elements (Cloned x) = []"

text \<open>
  The identity tokens in a model tree, those of the groups of an element tree, and those
  of the model nodes attached below an element tree.
\<close>

fun uuids :: "object3D \<Rightarrow> string list" where
  "uuids (Object3D nm ty cs p r q sc m mau mnu u v) = u # concat (map uuids cs)"

fun entity_uuids :: "element \<Rightarrow> string list" where
  "entity_uuids (Element l a c ch g m) = uuid g # concat (map entity_uuids ch)"
| "entity_uuids (Cloned x) = []"

fun payload_uuids :: "element \<Rightarrow> string list" where
  "payload_uuids (Element l a c ch g m) =
     concat (map (\<lambda>(k, obj). uuids obj) m) @ concat (map payload_uuids ch)"
| "payload_uuids (Cloned x) = []"

definition tokens_after :: "component \<Rightarrow> object3D \<Rightarrow> nat \<Rightarrow> string list" where
  \<comment> \<open>every token held by a node or by an entity's group once the call has returned\<close>
  "tokens_after this node s =
     (case entity_of this node s of
        None \<Rightarrow> uuids (node_after this node s)
      | Some el \<Rightarrow> entity_uuids el @ payload_uuids el)"

definition generated :: "component \<Rightarrow> object3D \<Rightarrow> nat \<Rightarrow> string list" where
  \<comment> \<open>the tokens that \<open>generateUUID\<close> returned during the call\<close>
  "generated this node s = map (generateUUID this) [s ..< calls_after this node s]"

section \<open>Example inputs\<close>

definition sample :: "string \<Rightarrow> string \<Rightarrow> string \<Rightarrow> object3D list \<Rightarrow> object3D" where
  "sample nm ty u cs =
     Object3D nm ty cs (1, 2, 3) (Euler 0 0 0 ''XYZ'') (0, 0, 0, 1) (2, 2, 2) identity True False u True"

definition avatar :: "(string \<Rightarrow> template option) \<Rightarrow> component" where
  "avatar templates =
     \<lparr> hands = True, shirt = True, head = False, querySelector = templates,
       setFromQuaternion = (\<lambda>q ord. (0, 0, 0)),
       generateUUID = (\<lambda>k. replicate (Suc k) CHR ''g'') \<rparr>"

definition eye_template :: "string \<Rightarrow> template option" where
  "eye_template nm =
     (if nm = ''RightEye''
      then Some (Template (Some (Markup ''a-entity'' [(''id'', ''eye'')] [] [Markup ''a-sphere'' [] [] []])))
      else None)"

definition no_template :: "string \<Rightarrow> template option" where
  "no_template nm = None"

definition eyes_tree :: object3D where
  "eyes_tree =
     sample ''Scene'' ''Group'' ''u0''
       [sample ''Hips'' ''Bone'' ''u1''
          [sample ''LeftEye'' ''Bone'' ''u2'' [], sample ''RightEye'' ''Bone'' ''u3'' []]]"

definition empty_template :: "string \<Rightarrow> template option" where
  \<comment> \<open>\<open><template data-name="RightEye"></template>\<close>\<close>
  "empty_template nm = (if nm = ''RightEye'' then Some (Template None) else None)"

definition face_template :: "string \<Rightarrow> template option" where
  "face_template nm =
     (if nm = ''Head''
      then Some (Template (Some (Markup ''a-entity'' [] [] [Markup ''a-sphere'' [] [] []])))
      else if nm = ''LeftEye'' \<or> nm = ''RightEye''
      then Some (Template (Some (Markup ''a-entity'' [] [] [])))
      else None)"

definition face_tree :: object3D where
  "face_tree =
     sample ''Head'' ''Bone'' ''h''
       [sample ''LeftEye'' ''Bone'' ''a'' [], sample ''Nose'' ''Bone'' ''b'' [],
        sample ''RightEye'' ''Bone'' ''c'' []]"

definition nested_scene :: object3D where
  \<comment> \<open>a node named \<open>Scene\<close> that is not the root\<close>
  "nested_scene = sample ''Armature'' ''Object3D'' ''r'' [sample ''Scene'' ''Group'' ''n'' []]"

section \<open>Reading the results\<close>

definition child_uuids :: "element \<Rightarrow> string list" where
  "child_uuids el = map (uuid \<circ> object3D) (childNodes el)"

section \<open>Basic facts\<close>

lemma set_name_sel [simp]:
  "name (set_name v n) = v"
  "type (set_name v n) = type n"
  "children (set_name v n) = children n"
  "position (set_name v n) = position n"
  "rotation (set_name v n) = rotation n"
  "quaternion (set_name v n) = quaternion n"
  "scale (set_name v n) = scale n"
  "matrix (set_name v n) = matrix n"
  "matrixAutoUpdate (set_name v n) = matrixAutoUpdate n"
  "matrixNeedsUpdate (set_name v n) = matrixNeedsUpdate n"
  "uuid (set_name v n) = uuid n"
  "visible (set_name v n) = visible n"
  by (simp_all add: set_name_def)

lemma set_children_sel [simp]:
  "name (set_children v n) = name n"
  "type (set_children v n) = type n"
  "children (set_children v n) = v"
  "position (set_children v n) = position n"
  "rotation (set_children v n) = rotation n"
  "quaternion (set_children v n) = quaternion n"
  "scale (set_children v n) = scale n"
  "matrix (set_children v n) = matrix n"
  "matrixAutoUpdate (set_children v n) = matrixAutoUpdate n"
  "matrixNeedsUpdate (set_children v n) = matrixNeedsUpdate n"
  "uuid (set_children v n) = uuid n"
  "visible (set_children v n) = visible n"
  by (simp_all add: set_children_def)

lemma set_position_sel [simp]:
  "name (set_position v n) = name n"
  "type (set_position v n) = type n"
  "children (set_position v n) = children n"
  "position (set_position v n) = v"
  "rotation (set_position v n) = rotation n"
  "quaternion (set_position v n) = quaternion n"
  "scale (set_position v n) = scale n"
  "matrix (set_position v n) = matrix n"
  "matrixAutoUpdate (set_position v n) = matrixAutoUpdate n"
  "matrixNeedsUpdate (set_position v n) = matrixNeedsUpdate n"
  "uuid (set_position v n) = uuid n"
  "visible (set_position v n) = visible n"
  by (simp_all add: set_position_def)

lemma set_rotation_sel [simp]:
  "name (set_rotation v n) = name n"
  "type (set_rotation v n) = type n"
  "children (set_rotation v n) = children n"
  "position (set_rotation v n) = position n"
  "rotation (set_rotation v n) = v"
  "quaternion (set_rotation v n) = quaternion n"
  "scale (set_rotation v n) = scale n"
  "matrix (set_rotation v n) = matrix n"
  "matrixAutoUpdate (set_rotation v n) = matrixAutoUpdate n"
  "matrixNeedsUpdate (set_rotation v n) = matrixNeedsUpdate n"
  "uuid (set_rotation v n) = uuid n"
  "visible (set_rotation v n) = visible n"
  by (simp_all add: set_rotation_def)

lemma set_quaternion_sel [simp]:
  "name (set_quaternion v n) = name n"
  "type (set_quaternion v n) = type n"
  "children (set_quaternion v n) = children n"
  "position (set_quaternion v n) = position n"
  "rotation (set_quaternion v n) = rotation n"
  "quaternion (set_quaternion v n) = v"
  "scale (set_quaternion v n) = scale n"
  "matrix (set_quaternion v n) = matrix n"
  "matrixAutoUpdate (set_quaternion v n) = matrixAutoUpdate n"
  "matrixNeedsUpdate (set_quaternion v n) = matrixNeedsUpdate n"
  "uuid (set_quaternion v n) = uuid n"
  "visible (set_quaternion v n) = visible n"
  by (simp_all add: set_quaternion_def)

lemma set_scale_sel [simp]:
  "name (set_scale v n) = name n"
  "type (set_scale v n) = type n"
  "children (set_scale v n) = children n"
  "position (set_scale v n) = position n"
  "rotation (set_scale v n) = rotation n"
  "quaternion (set_scale v n) = quaternion n"
  "scale (set_scale v n) = v"
  "matrix (set_scale v n) = matrix n"
  "matrixAutoUpdate (set_scale v n) = matrixAutoUpdate n"
  "matrixNeedsUpdate (set_scale v n) = matrixNeedsUpdate n"
  "uuid (set_scale v n) = uuid n"
  "visible (set_scale v n) = visible n"
  by (simp_all add: set_scale_def)

lemma set_matrix_sel [simp]:
  "name (set_matrix v n) = name n"
  "type (set_matrix v n) = type n"
  "children (set_matrix v n) = children n"
  "position (set_matrix v n) = position n"
  "rotation (set_matrix v n) = rotation n"
  "quaternion (set_matrix v n) = quaternion n"
  "scale (set_matrix v n) = scale n"
  "matrix (set_matrix v n) = v"
  "matrixAutoUpdate (set_matrix v n) = matrixAutoUpdate n"
  "matrixNeedsUpdate (set_matrix v n) = matrixNeedsUpdate n"
  "uuid (set_matrix v n) = uuid n"
  "visible (set_matrix v n) = visible n"
  by (simp_all add: set_matrix_def)

lemma set_matrixAutoUpdate_sel [simp]:
  "name (set_matrixAutoUpdate v n) = name n"
  "type (set_matrixAutoUpdate v n) = type n"
  "children (set_matrixAutoUpdate v n) = children n"
  "position (set_matrixAutoUpdate v n) = position n"
  "rotation (set_matrixAutoUpdate v n) = rotation n"
  "quaternion (set_matrixAutoUpdate v n) = quaternion n"
  "scale (set_matrixAutoUpdate v n) = scale n"
  "matrix (set_matrixAutoUpdate v n) = matrix n"
  "matrixAutoUpdate (set_matrixAutoUpdate v n) = v"
  "matrixNeedsUpdate (set_matrixAutoUpdate v n) = matrixNeedsUpdate n"
  "uuid (set_matrixAutoUpdate v n) = uuid n"
  "visible (set_matrixAutoUpdate v n) = visible n"
  by (simp_all add: set_matrixAutoUpdate_def)

lemma set_matrixNeedsUpdate_sel [simp]:
  "name (set_matrixNeedsUpdate v n) = name n"
  "type (set_matrixNeedsUpdate v n) = type n"
  "children (set_matrixNeedsUpdate v n) = children n"
  "position (set_matrixNeedsUpdate v n) = position n"
  "rotation (set_matrixNeedsUpdate v n) = rotation n"
  "quaternion (set_matrixNeedsUpdate v n) = quaternion n"
  "scale (set_matrixNeedsUpdate v n) = scale n"
  "matrix (set_matrixNeedsUpdate v n) = matrix n"
  "matrixAutoUpdate (set_matrixNeedsUpdate v n) = matrixAutoUpdate n"
  "matrixNeedsUpdate (set_matrixNeedsUpdate v n) = v"
  "uuid (set_matrixNeedsUpdate v n) = uuid n"
  "visible (set_matrixNeedsUpdate v n) = visible n"
  by (simp_all add: set_matrixNeedsUpdate_def)

lemma set_uuid_sel [simp]:
  "name (set_uuid v n) = name n"
  "type (set_uuid v n) = type n"
  "children (set_uuid v n) = children n"
  "position (set_uuid v n) = position n"
  "rotation (set_uuid v n) = rotation n"
  "quaternion (set_uuid v n) = quaternion n"
  "scale (set_uuid v n) = scale n"
  "matrix (set_uuid v n) = matrix n"
  "matrixAutoUpdate (set_uuid v n) = matrixAutoUpdate n"
  "matrixNeedsUpdate (set_uuid v n) = matrixNeedsUpdate n"
  "uuid (set_uuid v n) = v"
  "visible (set_uuid v n) = visible n"
  by (simp_all add: set_uuid_def)

lemma set_visible_sel [simp]:
  "name (set_visible v n) = name n"
  "type (set_visible v n) = type n"
  "children (set_visible v n) = children n"
  "position (set_visible v n) = position n"
  "rotation (set_visible v n) = rotation n"
  "quaternion (set_visible v n) = quaternion n"
  "scale (set_visible v n) = scale n"
  "matrix (set_visible v n) = matrix n"
  "matrixAutoUpdate (set_visible v n) = matrixAutoUpdate n"
  "matrixNeedsUpdate (set_visible v n) = matrixNeedsUpdate n"
  "uuid (set_visible v n) = uuid n"
  "visible (set_visible v n) = v"
  by (simp_all add: set_visible_def)

lemma decompose_identity_sel [simp]:
  "name (decompose_identity n) = name n"
  "type (decompose_identity n) = type n"
  "children (decompose_identity n) = children n"
  "position (decompose_identity n) = (0, 0, 0)"
  "rotation (decompose_identity n) = Euler 0 0 0 (order (rotation n))"
  "quaternion (decompose_identity n) = (0, 0, 0, 1)"
  "scale (decompose_identity n) = (1, 1, 1)"
  "matrix (decompose_identity n) = matrix n"
  "matrixAutoUpdate (decompose_identity n) = matrixAutoUpdate n"
  "matrixNeedsUpdate (decompose_identity n) = matrixNeedsUpdate n"
  "uuid (decompose_identity n) = uuid n"
  "visible (decompose_identity n) = visible n"
  by (simp_all add: decompose_identity_def)

lemma normalize_rotation_sel [simp]:
  "name (normalize_rotation this node) = name node"
  "type (normalize_rotation this node) = type node"
  "children (normalize_rotation this node) = children node"
  "position (normalize_rotation this node) = position node"
  "quaternion (normalize_rotation this node) = quaternion node"
  "scale (normalize_rotation this node) = scale node"
  "matrix (normalize_rotation this node) = matrix node"
  "matrixAutoUpdate (normalize_rotation this node) = matrixAutoUpdate node"
  "matrixNeedsUpdate (normalize_rotation this node) = matrixNeedsUpdate node"
  "uuid (normalize_rotation this node) = uuid node"
  "visible (normalize_rotation this node) = visible node"
  "order (rotation (normalize_rotation this node)) = ''YXZ''"
  by (simp_all add: normalize_rotation_def split: prod.splits)

lemma set_visibility_sel [simp]:
  "name (set_visibility this node) = name node"
  "type (set_visibility this node) = type node"
  "children (set_visibility this node) = children node"
  "position (set_visibility this node) = position node"
  "rotation (set_visibility this node) = rotation node"
  "quaternion (set_visibility this node) = quaternion node"
  "scale (set_visibility this node) = scale node"
  "matrix (set_visibility this node) = matrix node"
  "matrixAutoUpdate (set_visibility this node) = matrixAutoUpdate node"
  "matrixNeedsUpdate (set_visibility this node) = matrixNeedsUpdate node"
  "uuid (set_visibility this node) = uuid node"
  by (simp_all add: set_visibility_def)

lemma shell_Element:
  "\<exists>l a c ch. shell this node = Element l a c ch new_Group []"
  by (simp add: shell_def createElement_def cloneNode_def split: option.split)

lemma foldl_appendChild:
  "foldl (\<lambda>el childEntity. appendChild childEntity el) (Element l a c ch g m) ces =
     Element l a c (ch @ ces) g m"
  by (induction ces arbitrary: ch) simp_all

lemma scene_attributes_Element:
  "scene_attributes node (Element l a c ch g m) =
     Element l (if name node = ''Scene''
                then AList.update ''rotation'' ''0 180 0'' (AList.update ''position'' ''0 -0.65 0'' a)
                else a) c ch g m"
  by (simp add: scene_attributes_def)

lemma wrap_fst: "fst (wrap this node ces s) = stripped this node s"
  by (simp add: wrap_def stripped_def Let_def)

lemma wrap_snd:
  "snd (wrap this node ces s) =
     Element (localName (shell this node))
       (if name node = ''Scene''
        then AList.update ''rotation'' ''0 180 0''
               (AList.update ''position'' ''0 -0.65 0''
                 (AList.update ''name'' (name node) (attributes (shell this node))))
        else AList.update ''name'' (name node) (attributes (shell this node)))
       (if className node \<in> set (classList (shell this node)) then classList (shell this node)
        else classList (shell this node) @ [className node])
       (childNodes (shell this node) @ ces)
       (group_of this node)
       [(toLowerCase (type node), stripped this node s)]"
proof -
  obtain l a c ch where sh: "shell this node = Element l a c ch new_Group []"
    using shell_Element by blast
  show ?thesis
    by (simp add: wrap_def Let_def sh scene_attributes_Element foldl_appendChild stripped_def
        group_of_def)
qed

declare inflate.simps [simp del] inflate_children.simps [simp del]

lemma qualifies_iff:
  "qualifies this node =
     (name node = ''Scene'' \<or> querySelector this (name node) \<noteq> None
       \<or> (\<exists>child \<in> set (children node). qualifies this child))"
  by (cases node) simp

lemma inflate_eq:
  "inflate this node s =
     (if included this node s
      then (stripped this (visited this node s) (calls_after_children this (children node) s),
            Some (snd (wrap this (visited this node s) (childrenEntities this (children node) s)
                    (calls_after_children this (children node) s))),
            Suc (calls_after_children this (children node) s))
      else (visited this node s, None, calls_after_children this (children node) s))"
  by (simp add: inflate.simps Let_def case_prod_beta wrap_fst included_def visited_def
      live_children_def childrenEntities_def calls_after_children_def)

lemma entity_of_eq:
  "entity_of this node s =
     (if included this node s
      then Some (snd (wrap this (visited this node s) (childrenEntities this (children node) s)
                    (calls_after_children this (children node) s)))
      else None)"
  by (simp add: entity_of_def inflate_eq)

lemma node_after_eq:
  "node_after this node s =
     (if included this node s
      then stripped this (visited this node s) (calls_after_children this (children node) s)
      else visited this node s)"
  by (simp add: node_after_def inflate_eq)

lemma calls_after_eq:
  "calls_after this node s =
     (if included this node s then Suc (calls_after_children this (children node) s)
      else calls_after_children this (children node) s)"
  by (simp add: calls_after_def inflate_eq)

lemma loop_Nil [simp]:
  "live_children this [] s = []"
  "childrenEntities this [] s = []"
  "calls_after_children this [] s = s"
  by (simp_all add: live_children_def childrenEntities_def calls_after_children_def
      inflate_children.simps)

lemma loop_Cons [simp]:
  "live_children this (child # rest) s =
     (case entity_of this child s of None \<Rightarrow> [node_after this child s] | Some el \<Rightarrow> [])
       @ live_children this rest (calls_after this child s)"
  "childrenEntities this (child # rest) s =
     (case entity_of this child s of None \<Rightarrow> [] | Some el \<Rightarrow> [el])
       @ childrenEntities this rest (calls_after this child s)"
  "calls_after_children this (child # rest) s =
     calls_after_children this rest (calls_after this child s)"
  by (simp_all add: live_children_def childrenEntities_def calls_after_children_def
      inflate_children.simps entity_of_def node_after_def calls_after_def case_prod_beta
      split: option.splits)

lemma inflate_induct [case_names node nil cons]:
  assumes "\<And>this node s. Q this (children node) s \<Longrightarrow> P this node s"
    and "\<And>this s. Q this [] s"
    and "\<And>this child rest s.
           P this child s \<Longrightarrow> Q this rest (calls_after this child s) \<Longrightarrow> Q this (child # rest) s"
  shows "P this node s" and "Q this nodes s"
proof (induction this node s and this nodes s rule: inflate_inflate_children.induct)
  case (1 this node s)
  then show ?case by (simp add: assms(1))
next
  case (2 this s)
  show ?case by (rule assms(2))
next
  case (3 this child rest s)
  have "Q this rest (calls_after this child s)"
    using 3(2) [of "fst (inflate this child s)" "snd (inflate this child s)"
        "entity_of this child s" "calls_after this child s"]
    by (simp add: entity_of_def calls_after_def)
  with 3(1) show ?case by (rule assms(3))
qed

lemma produces_qualifies:
  "(entity_of this node s \<noteq> None) = qualifies this node"
  "(childrenEntities this nodes s \<noteq> []) = (\<exists>child \<in> set nodes. qualifies this child)"
proof (induction this node s and this nodes s rule: inflate_induct)
  case (node this node s)
  then show ?case
    by (subst qualifies_iff) (auto simp: entity_of_eq included_def)
next
  case (nil this s)
  then show ?case by simp
next
  case (cons this child rest s)
  then show ?case
    by (auto split: option.splits)
qed

lemma sample_sel [simp]:
  "name (sample nm ty u cs) = nm"
  "type (sample nm ty u cs) = ty"
  "children (sample nm ty u cs) = cs"
  "uuid (sample nm ty u cs) = u"
  by (simp_all add: sample_def)

lemma qualifies_sample [simp]:
  "qualifies this (sample nm ty u cs) =
     (nm = ''Scene'' \<or> querySelector this nm \<noteq> None \<or> (\<exists>child \<in> set cs. qualifies this child))"
  by (simp add: sample_def)

lemma avatar_sel [simp]:
  "querySelector (avatar t) = t"
  "generateUUID (avatar t) k = replicate (Suc k) CHR ''g''"
  by (simp_all add: avatar_def)

lemma shell_name: "name a = name b \<Longrightarrow> shell this a = shell this b"
  by (simp add: shell_def)

lemma visited_sel [simp]:
  "name (visited this node s) = name node"
  "type (visited this node s) = type node"
  "children (visited this node s) = live_children this (children node) s"
  "position (visited this node s) = position node"
  "rotation (visited this node s) = rotation node"
  "quaternion (visited this node s) = quaternion node"
  "scale (visited this node s) = scale node"
  "matrix (visited this node s) = matrix node"
  "matrixAutoUpdate (visited this node s) = matrixAutoUpdate node"
  "matrixNeedsUpdate (visited this node s) = matrixNeedsUpdate node"
  "uuid (visited this node s) = uuid node"
  by (simp_all add: visited_def)

lemma shell_visited [simp]: "shell this (visited this node s) = shell this node"
  by (rule shell_name) simp

lemma className_visited [simp]: "className (visited this node s) = className node"
  by (simp add: className_def)

lemma entity_sel:
  assumes "entity_of this node s = Some el"
  shows "localName el = localName (shell this node)"
    and "attributes el =
      (if name node = ''Scene''
       then AList.update ''rotation'' ''0 180 0''
              (AList.update ''position'' ''0 -0.65 0''
                (AList.update ''name'' (name node) (attributes (shell this node))))
       else AList.update ''name'' (name node) (attributes (shell this node)))"
    and "childNodes el = childNodes (shell this node) @ childrenEntities this (children node) s"
    and "classList el =
      (if className node \<in> set (classList (shell this node)) then classList (shell this node)
       else classList (shell this node) @ [className node])"
    and "object3D el = group_of this (visited this node s)"
    and "object3DMap el =
      [(toLowerCase (type node), node_after this node s)]"
  using assms
  by (auto simp: entity_of_eq node_after_eq wrap_snd split: if_splits)

lemma group_of_sel [simp]:
  "name (group_of this node) = name node"
  "type (group_of this node) = ''Group''"
  "children (group_of this node) = []"
  "position (group_of this node) = position node"
  "rotation (group_of this node) = rotation (normalize_rotation this node)"
  "scale (group_of this node) = (1, 1, 1)"
  "matrixNeedsUpdate (group_of this node) = True"
  "uuid (group_of this node) = uuid node"
  by (simp_all add: group_of_def new_Group_def)

lemma stripped_sel [simp]:
  "name (stripped this node s) = name node"
  "type (stripped this node s) = type node"
  "children (stripped this node s) = children node"
  "position (stripped this node s) = (0, 0, 0)"
  "rotation (stripped this node s) = Euler 0 0 0 ''YXZ''"
  "quaternion (stripped this node s) = (0, 0, 0, 1)"
  "scale (stripped this node s) = (1, 1, 1)"
  "matrix (stripped this node s) = identity"
  "matrixAutoUpdate (stripped this node s) = False"
  "matrixNeedsUpdate (stripped this node s) = matrixNeedsUpdate node"
  "uuid (stripped this node s) = generateUUID this s"
  "visible (stripped this node s) = visible node"
  by (simp_all add: stripped_def)

lemma scene_entity:
  assumes "name node = ''Scene''"
  shows "\<exists>el. entity_of this node s = Some el
           \<and> getAttribute ''position'' el = Some ''0 -0.65 0''
           \<and> getAttribute ''rotation'' el = Some ''0 180 0''"
proof -
  have "included this node s"
    using assms by (simp add: included_def)
  then obtain el where el: "entity_of this node s = Some el"
    by (simp add: entity_of_eq)
  from entity_sel(2) [OF el] assms
  have "getAttribute ''position'' el = Some ''0 -0.65 0''"
    and "getAttribute ''rotation'' el = Some ''0 180 0''"
    by (simp_all add: getAttribute_def update_conv')
  with el show ?thesis by simp
qed

lemmas run_simps = entity_of_eq node_after_eq calls_after_eq included_def visited_def wrap_snd
  shell_def createElement_def cloneNode_def

declare inflate0.simps [simp del]

lemma inflate0_qualifies:
  "inflate0 this node s = Inr r \<Longrightarrow> (fst (snd r) \<noteq> None) = qualifies this node"
  "inflate0_children this nodes s = Inr rs \<Longrightarrow>
     (fst (snd rs) \<noteq> []) = (\<exists>child \<in> set nodes. qualifies this child)"
proof (induction this node s and this nodes s arbitrary: r and rs
    rule: inflate0_inflate0_children.induct)
  case (1 this node s)
  from "1.prems" obtain live ces s' where
    ch: "inflate0_children this (children node) s = Inr (live, ces, s')"
    by (auto simp: inflate0.simps Let_def split: sum.splits)
  from "1.IH" [OF refl, of "(live, ces, s')"] ch
  have ih: "(ces \<noteq> []) = (\<exists>child \<in> set (children node). qualifies this child)"
    by simp
  from "1.prems" ch ih show ?case
    by (subst qualifies_iff)
       (auto simp: inflate0.simps Let_def case_prod_beta split: sum.splits if_splits)
next
  case (2 this s)
  then show ?case by (auto simp: inflate0_children.simps)
next
  case (3 this child rest s)
  from "3.prems" obtain c' r' s' where
    c: "inflate0 this child s = Inr (c', r', s')"
    by (auto split: sum.splits)
  from "3.prems" c obtain live ces s'' where
    rst: "inflate0_children this rest s' = Inr (live, ces, s'')"
    by (auto split: sum.splits)
  from "3.IH"(1) [OF c] have a: "(r' \<noteq> None) = qualifies this child" by simp
  from "3.IH"(2) [OF c refl refl rst]
  have b: "(ces \<noteq> []) = (\<exists>child \<in> set rest. qualifies this child)" by simp
  from "3.prems" c rst a b show ?case
    by (auto split: option.splits)
qed

lemma inflate_empty_template:
  assumes "querySelector this (name node) = Some (Template None)"
  shows "shell this node = createElement ''a-entity''"
    and "\<exists>el. entity_of this node s = Some el \<and> localName el = ''a-entity''
           \<and> childNodes el = childrenEntities this (children node) s
           \<and> classList el = [className node]"
proof -
  show sh: "shell this node = createElement ''a-entity''"
    using assms by (simp add: shell_def)
  have "included this node s"
    using assms by (simp add: included_def)
  then obtain el where el: "entity_of this node s = Some el"
    by (simp add: entity_of_eq)
  from entity_sel(1,3,4) [OF el] el sh
  show "\<exists>el. entity_of this node s = Some el \<and> localName el = ''a-entity''
           \<and> childNodes el = childrenEntities this (children node) s
           \<and> classList el = [className node]"
    by (simp add: createElement_def)
qed

lemma set_visibility_deep_eq:
  "set_visibility_deep this node =
     set_visibility this (set_children (map (set_visibility_deep this) (children node)) node)"
  by (cases node) (simp add: set_children_def)

lemma pruned_untouched:
  "\<not> qualifies this node \<Longrightarrow>
     node_after this node s = set_visibility_deep this node \<and> calls_after this node s = s"
  "\<forall>child \<in> set nodes. \<not> qualifies this child \<Longrightarrow>
     live_children this nodes s = map (set_visibility_deep this) nodes
     \<and> calls_after_children this nodes s = s"
proof (induction this node s and this nodes s rule: inflate_induct)
  case (node this node s)
  from node.prems have nq: "\<forall>child \<in> set (children node). \<not> qualifies this child"
    and "\<not> included this node s"
    using produces_qualifies(2) [of this "children node" s]
    by (auto simp: qualifies_iff [of this node] included_def)
  with node.IH show ?case
    by (subst set_visibility_deep_eq)
       (simp add: node_after_eq calls_after_eq visited_def set_visibility_def set_children_def
         set_visible_def)
next
  case (nil this s)
  then show ?case by simp
next
  case (cons this child rest s)
  then have "entity_of this child s = None"
    using produces_qualifies(1) [of this child s] by simp
  with cons show ?case by simp
qed


lemma set_visibility_deep_sel [simp]:
  "name (set_visibility_deep this node) = name node"
  "type (set_visibility_deep this node) = type node"
  "children (set_visibility_deep this node) = map (set_visibility_deep this) (children node)"
  "position (set_visibility_deep this node) = position node"
  "rotation (set_visibility_deep this node) = rotation node"
  "quaternion (set_visibility_deep this node) = quaternion node"
  "scale (set_visibility_deep this node) = scale node"
  "matrix (set_visibility_deep this node) = matrix node"
  "matrixAutoUpdate (set_visibility_deep this node) = matrixAutoUpdate node"
  "matrixNeedsUpdate (set_visibility_deep this node) = matrixNeedsUpdate node"
  "uuid (set_visibility_deep this node) = uuid node"
  "visible (set_visibility_deep this node) = visible (set_visibility this node)"
  by (simp_all add: set_visibility_deep_eq [of this node] set_visibility_def)

lemma set_visibility_deep_id:
  "\<forall>m \<in> set (tree_nodes node). type m \<noteq> ''SkinnedMesh'' \<Longrightarrow>
     set_visibility_deep this node = node"
proof (induction node)
  case (Object3D nm ty cs p r q sc m mau mnu u v)
  then have "map (set_visibility_deep this) cs = cs"
    by (auto intro!: map_idI)
  with Object3D.prems show ?case
    by (simp add: set_visibility_def)
qed

lemma entity_group:
  assumes "entity_of this node s = Some el"
  shows "uuid (object3D el) = uuid node" and "name (object3D el) = name node"
  using entity_sel(5) [OF assms] by simp_all

lemma childrenEntities_uuids:
  "map (uuid \<circ> object3D) (childrenEntities this nodes s) = map uuid (filter (qualifies this) nodes)"
proof (induction nodes arbitrary: s)
  case Nil
  show ?case by simp
next
  case (Cons child rest)
  show ?case
  proof (cases "entity_of this child s")
    case None
    then have "\<not> qualifies this child"
      using produces_qualifies(1) [of this child s] by simp
    with None Cons show ?thesis by simp
  next
    case (Some el)
    then have "qualifies this child"
      using produces_qualifies(1) [of this child s] by simp
    with Some Cons entity_group(1) [OF Some] show ?thesis by simp
  qed
qed

lemma loop_length:
  "length (live_children this nodes s) + length (childrenEntities this nodes s) = length nodes"
  by (induction nodes arbitrary: s) (simp_all split: option.splits)

lemma tree_nodes_iff:
  "m \<in> set (tree_nodes node) \<longleftrightarrow> m = node \<or> (\<exists>c \<in> set (children node). m \<in> set (tree_nodes c))"
  by (cases node) auto

lemma entity_is_Element:
  assumes "entity_of this node s = Some el"
  shows "el \<in> set (tree_elements el)"
    and "set (tree_elements el) = insert el (\<Union>k \<in> set (childNodes el). set (tree_elements k))"
  using assms by (auto simp: entity_of_eq wrap_snd split: if_splits)

lemma qualifies_up:
  "m \<in> set (tree_nodes node) \<Longrightarrow> qualifies this m \<Longrightarrow> qualifies this node"
proof (induction node)
  case (Object3D nm ty cs p r q sc mt mau mnu u v)
  show ?case
  proof (cases "m = Object3D nm ty cs p r q sc mt mau mnu u v")
    case True
    with Object3D.prems show ?thesis by simp
  next
    case False
    with Object3D.prems obtain c where "c \<in> set cs" and "m \<in> set (tree_nodes c)"
      by auto
    with Object3D.IH Object3D.prems have "qualifies this c" by blast
    with \<open>c \<in> set cs\<close> show ?thesis by auto
  qed
qed

lemma child_entity:
  "c \<in> set nodes \<Longrightarrow> qualifies this c \<Longrightarrow>
     \<exists>sc cEl. entity_of this c sc = Some cEl \<and> cEl \<in> set (childrenEntities this nodes s)"
proof (induction nodes arbitrary: s)
  case Nil
  then show ?case by simp
next
  case (Cons child rest)
  show ?case
  proof (cases "c = child")
    case True
    with Cons.prems obtain cEl where "entity_of this child s = Some cEl"
      using produces_qualifies(1) [of this child s] by auto
    with True show ?thesis by auto
  next
    case False
    with Cons.prems have "c \<in> set rest" by simp
    from Cons.IH [OF this Cons.prems(2), of "calls_after this child s"]
    show ?thesis by auto
  qed
qed

lemma embedded:
  "\<forall>m \<in> set (tree_nodes node). qualifies this m \<longrightarrow>
     (\<exists>sm mEl rootEl. entity_of this m sm = Some mEl \<and> entity_of this node s = Some rootEl
        \<and> mEl \<in> set (tree_elements rootEl))"
  "\<forall>c \<in> set nodes. \<forall>m \<in> set (tree_nodes c). qualifies this m \<longrightarrow>
     (\<exists>sm mEl e. entity_of this m sm = Some mEl \<and> e \<in> set (childrenEntities this nodes s)
        \<and> mEl \<in> set (tree_elements e))"
proof (induction this node s and this nodes s rule: inflate_induct)
  case (node this node s)
  show ?case
  proof (intro ballI impI)
    fix m
    assume m: "m \<in> set (tree_nodes node)" and qm: "qualifies this m"
    then have "qualifies this node" by (rule qualifies_up)
    then obtain rootEl where root: "entity_of this node s = Some rootEl"
      using produces_qualifies(1) [of this node s] by auto
    show "\<exists>sm mEl rootEl. entity_of this m sm = Some mEl \<and> entity_of this node s = Some rootEl
        \<and> mEl \<in> set (tree_elements rootEl)"
    proof (cases "m = node")
      case True
      with root entity_is_Element(1) [OF root] show ?thesis by blast
    next
      case False
      with m obtain c where c: "c \<in> set (children node)" and mc: "m \<in> set (tree_nodes c)"
        by (auto simp: tree_nodes_iff [of m node])
      with node.IH qm obtain sm mEl e where
        e: "entity_of this m sm = Some mEl" "e \<in> set (childrenEntities this (children node) s)"
          "mEl \<in> set (tree_elements e)"
        by blast
      from e(2) have "e \<in> set (childNodes rootEl)"
        by (simp add: entity_sel(3) [OF root])
      with e(3) have "mEl \<in> set (tree_elements rootEl)"
        by (auto simp: entity_is_Element(2) [OF root])
      with e(1) root show ?thesis by blast
    qed
  qed
next
  case (nil this s)
  show ?case by simp
next
  case (cons this child rest s)
  show ?case
  proof (intro ballI impI)
    fix c m
    assume c: "c \<in> set (child # rest)" and m: "m \<in> set (tree_nodes c)" and qm: "qualifies this m"
    show "\<exists>sm mEl e. entity_of this m sm = Some mEl
        \<and> e \<in> set (childrenEntities this (child # rest) s) \<and> mEl \<in> set (tree_elements e)"
    proof (cases "c = child")
      case True
      with cons.IH(1) m qm obtain sm mEl rootEl where
        "entity_of this m sm = Some mEl" "entity_of this child s = Some rootEl"
        "mEl \<in> set (tree_elements rootEl)"
        by blast
      then show ?thesis by auto
    next
      case False
      with c have "c \<in> set rest" by simp
      with cons.IH(2) m qm obtain sm mEl e where
        "entity_of this m sm = Some mEl"
        "e \<in> set (childrenEntities this rest (calls_after this child s))"
        "mEl \<in> set (tree_elements e)"
        by blast
      then show ?thesis by auto
    qed
  qed
qed

lemma uuids_eq: "uuids node = uuid node # concat (map uuids (children node))"
  by (cases node) simp

lemma shell_children_Cloned:
  "k \<in> set (childNodes (shell this node)) \<Longrightarrow> \<exists>x. k = Cloned x"
  by (auto simp: shell_def createElement_def cloneNode_def split: option.splits)

lemma shell_children_no_tokens [simp]:
  "concat (map entity_uuids (childNodes (shell this node))) = []"
  "concat (map payload_uuids (childNodes (shell this node))) = []"
  by (auto dest: shell_children_Cloned)

lemma entity_tokens:
  assumes "entity_of this node s = Some el"
  shows "entity_uuids el =
      uuid node # concat (map entity_uuids (childrenEntities this (children node) s))"
    and "payload_uuids el =
      uuids (node_after this node s)
        @ concat (map payload_uuids (childrenEntities this (children node) s))"
  using assms
  by (auto simp: entity_of_eq node_after_eq wrap_snd split: if_splits)

lemma calls_mono:
  "s \<le> calls_after this node s"
  "s \<le> calls_after_children this nodes s"
proof (induction this node s and this nodes s rule: inflate_induct)
  case (node this node s)
  then show ?case by (simp add: calls_after_eq)
next
  case (nil this s)
  show ?case by simp
next
  case (cons this child rest s)
  then show ?case by simp
qed

lemma generated_split:
  "s \<le> s' \<Longrightarrow> s' \<le> s'' \<Longrightarrow>
     mset (map f [s ..< s'']) = mset (map f [s ..< s']) + mset (map f [s' ..< s''])"
  by (metis map_append mset_append upt_add_eq_append le_Suc_ex)

lemma tokens_accounted:
  "mset (tokens_after this node s) = mset (uuids node) + mset (generated this node s)"
  "mset (concat (map uuids (live_children this nodes s))
         @ concat (map entity_uuids (childrenEntities this nodes s))
         @ concat (map payload_uuids (childrenEntities this nodes s)))
     = mset (concat (map uuids nodes))
       + mset (map (generateUUID this) [s ..< calls_after_children this nodes s])"
proof (induction this node s and this nodes s rule: inflate_induct)
  case (node this node s)
  let ?s' = "calls_after_children this (children node) s"
  have le: "s \<le> ?s'" by (rule calls_mono)
  show ?case
  proof (cases "included this node s")
    case False
    then have "tokens_after this node s = uuid node # concat (map uuids (live_children this (children node) s))"
      and "childrenEntities this (children node) s = []"
      and "generated this node s = map (generateUUID this) [s ..< ?s']"
      by (simp_all add: tokens_after_def generated_def entity_of_eq node_after_eq calls_after_eq
          uuids_eq [of "visited this node s"] included_def)
    with node.IH show ?thesis
      by (simp add: uuids_eq [of node])
  next
    case True
    then obtain el where el: "entity_of this node s = Some el"
      by (simp add: entity_of_eq)
    from True have na: "node_after this node s = stripped this (visited this node s) ?s'"
      by (simp add: node_after_eq)
    have g: "mset (generated this node s) =
        mset (map (generateUUID this) [s ..< ?s']) + {#generateUUID this ?s'#}"
      using True le by (simp add: generated_def calls_after_eq)
    have "mset (tokens_after this node s) =
        {#uuid node#} + {#generateUUID this ?s'#}
        + mset (concat (map uuids (live_children this (children node) s))
             @ concat (map entity_uuids (childrenEntities this (children node) s))
             @ concat (map payload_uuids (childrenEntities this (children node) s)))"
      by (simp add: tokens_after_def el entity_tokens [OF el] na
          uuids_eq [of "stripped this (visited this node s) ?s'"])
    with node.IH g show ?thesis
      by (simp add: uuids_eq [of node])
  qed
next
  case (nil this s)
  show ?case by simp
next
  case (cons this child rest s)
  let ?s1 = "calls_after this child s"
  have le: "s \<le> ?s1" "?s1 \<le> calls_after_children this rest ?s1"
    by (rule calls_mono)+
  have sp: "mset (map (generateUUID this) [s ..< calls_after_children this rest ?s1]) =
      mset (generated this child s)
      + mset (map (generateUUID this) [?s1 ..< calls_after_children this rest ?s1])"
    unfolding generated_def using le by (rule generated_split)
  from cons.IH(1) have c: "mset (tokens_after this child s) =
      mset (uuids child) + mset (generated this child s)" .
  show ?case
  proof (cases "entity_of this child s")
    case None
    with c have "mset (uuids (node_after this child s)) =
        mset (uuids child) + mset (generated this child s)"
      by (simp add: tokens_after_def)
    with cons.IH(2) None sp show ?thesis
      by simp
  next
    case (Some el)
    with c have "mset (entity_uuids el) + mset (payload_uuids el) =
        mset (uuids child) + mset (generated this child s)"
      by (simp add: tokens_after_def)
    with cons.IH(2) Some sp show ?thesis
      by (simp add: ac_simps)
  qed
qed

lemma uuids_sample [simp]: "uuids (sample nm ty u cs) = u # concat (map uuids cs)"
  by (simp add: sample_def)

section \<open>The claims\<close>

text \<open>
  C1. For every node, \<open>inflate\<close> returns an entity if and only if the node's name is
  \<open>Scene\<close>, or a template is registered for the node's name, or at least one of the node's
  children produced an entity; otherwise it returns none. Whether a node produces an
  entity does not depend on how many tokens have been generated before the call, so the
  child's call may be taken at any state. The second conjunct says the same through the
  recursive predicate \<open>qualifies\<close>; the third is the earlier \<open>_inflate\<close>, whose decision is
  the same whenever the call returns.
\<close>

theorem inflate_inclusion:
  "((\<exists>el. entity_of this node s = Some el) =
      (name node = ''Scene'' \<or> (\<exists>t. querySelector this (name node) = Some t)
        \<or> (\<exists>child \<in> set (children node). \<exists>s' el. entity_of this child s' = Some el)))
   \<and> ((\<exists>el. entity_of this node s = Some el) = qualifies this node)
   \<and> (\<forall>r. inflate0 this node s = Inr r \<longrightarrow> (\<exists>el. fst (snd r) = Some el) = qualifies this node)"
proof -
  have q: "(\<exists>el. entity_of this node s = Some el) = qualifies this node"
    using produces_qualifies(1) [of this node s] by auto
  also have "\<dots> = (name node = ''Scene'' \<or> (\<exists>t. querySelector this (name node) = Some t)
       \<or> (\<exists>child \<in> set (children node). qualifies this child))"
    by (subst qualifies_iff) auto
  also have "\<dots> = (name node = ''Scene'' \<or> (\<exists>t. querySelector this (name node) = Some t)
       \<or> (\<exists>child \<in> set (children node). \<exists>s' el. entity_of this child s' = Some el))"
    using produces_qualifies(1) [of this] by auto
  finally have "(\<exists>el. entity_of this node s = Some el) =
      (name node = ''Scene'' \<or> (\<exists>t. querySelector this (name node) = Some t)
        \<or> (\<exists>child \<in> set (children node). \<exists>s' el. entity_of this child s' = Some el))" .
  moreover have "\<forall>r. inflate0 this node s = Inr r \<longrightarrow>
      (\<exists>el. fst (snd r) = Some el) = qualifies this node"
    using inflate0_qualifies(1) [of this node s] by auto
  ultimately show ?thesis using q by blast
qed

theorem inflate_inclusion_witness:
  "(\<exists>el. entity_of (avatar eye_template) (sample ''RightEye'' ''Bone'' ''u3'' []) 0 = Some el)
   \<and> entity_of (avatar eye_template) (sample ''LeftEye'' ''Bone'' ''u2'' []) 0 = None
   \<and> (\<exists>r. inflate0 (avatar eye_template) (sample ''RightEye'' ''Bone'' ''u3'' []) 0 = Inr r
         \<and> (\<exists>el. fst (snd r) = Some el))"
proof -
  have r: "\<exists>r. inflate0 (avatar eye_template) (sample ''RightEye'' ''Bone'' ''u3'' []) 0 = Inr r"
    by (simp add: inflate0.simps eye_template_def shell0_def Let_def case_prod_beta)
  show ?thesis
    using r
      inflate_inclusion [of "avatar eye_template" "sample ''RightEye'' ''Bone'' ''u3'' []" 0]
      inflate_inclusion [of "avatar eye_template" "sample ''LeftEye'' ''Bone'' ''u2'' []" 0]
    by (auto simp: eye_template_def)
qed

text \<open>
  What lines 106-118 do for every node that becomes an entity: the node is left with zero
  position and rotation, unit scale and an identity matrix that is no longer recomputed;
  the entity's group takes the node's former position, and its former rotation in \<open>YXZ\<close>
  order.
\<close>

lemma transform_transfer:
  "entity_of this node s = Some el \<Longrightarrow>
     position (node_after this node s) = (0, 0, 0)
   \<and> rotation (node_after this node s) = Euler 0 0 0 ''YXZ''
   \<and> scale (node_after this node s) = (1, 1, 1)
   \<and> matrix (node_after this node s) = identity
   \<and> matrixAutoUpdate (node_after this node s) = False
   \<and> position (object3D el) = position node
   \<and> (order (rotation node) = ''YXZ'' \<longrightarrow> rotation (object3D el) = rotation node)
   \<and> (order (rotation node) \<noteq> ''YXZ'' \<longrightarrow>
        rotation (object3D el) =
          (case setFromQuaternion this (quaternion node) ''YXZ'' of
             (x, y, z) \<Rightarrow> Euler x y z ''YXZ''))"
proof -
  assume el: "entity_of this node s = Some el"
  then have inc: "included this node s"
    by (simp add: entity_of_eq split: if_splits)
  have "rotation (normalize_rotation this (visited this node s)) =
      (if order (rotation node) \<noteq> ''YXZ''
       then (case setFromQuaternion this (quaternion node) ''YXZ'' of
               (x, y, z) \<Rightarrow> Euler x y z ''YXZ'')
       else rotation node)"
    by (simp add: normalize_rotation_def split: prod.splits)
  with entity_sel(5) [OF el] inc show ?thesis
    by (simp add: node_after_eq)
qed

text \<open>
  C2. The claim is what the comment at lines 110-111 announces (\<open>Copy over the object's
  transform to the THREE.Group and reset the actual transform of the Object3D\<close>), and the
  code does it for the position and the rotation. It does not do it for the scale: lines
  112-113 copy position and rotation, no line copies the scale, and line 118 resets the
  node's scale with the rest. For a node named \<open>Scene\<close> at position \<open>(1, 2, 3)\<close> with scale
  \<open>(2, 2, 2)\<close>, the returned entity's group has the position \<open>(1, 2, 3)\<close> but the unit scale
  of a new group, and the node, as attached to the entity, has the unit scale too: the
  node's former scale is held by neither object.
\<close>

theorem scale_lost:
  "scale (sample ''Scene'' ''Group'' ''u0'' []) = (2, 2, 2)
   \<and> position (sample ''Scene'' ''Group'' ''u0'' []) = (1, 2, 3)
   \<and> map_option (position \<circ> object3D)
        (entity_of (avatar no_template) (sample ''Scene'' ''Group'' ''u0'' []) 0)
       = Some (1, 2, 3)
   \<and> map_option (scale \<circ> object3D)
        (entity_of (avatar no_template) (sample ''Scene'' ''Group'' ''u0'' []) 0)
       = Some (1, 1, 1)
   \<and> map_option (map (scale \<circ> snd) \<circ> object3DMap)
        (entity_of (avatar no_template) (sample ''Scene'' ''Group'' ''u0'' []) 0)
       = Some [(1, 1, 1)]
   \<and> scale (node_after (avatar no_template) (sample ''Scene'' ''Group'' ''u0'' []) 0) = (1, 1, 1)
   \<and> map_option (scale \<circ> object3D)
        (entity_of (avatar no_template) (sample ''Scene'' ''Group'' ''u0'' []) 0)
       \<noteq> Some (scale (sample ''Scene'' ''Group'' ''u0'' []))"
  by (simp add: run_simps no_template_def sample_def avatar_def normalize_rotation_def)

text \<open>
  C3, as the spec states it, fails: in the tree \<open>Scene \<rightarrow> Hips \<rightarrow> [LeftEye, RightEye]\<close> with a
  template for \<open>RightEye\<close> only, the single child of the entity returned for \<open>Scene\<close> is the
  entity of \<open>Hips\<close> (token \<open>u1\<close>), not the one of \<open>RightEye\<close> (token \<open>u3\<close>): \<open>Hips\<close> has a
  child that produced an entity, so line 74 does not prune it.
\<close>

theorem eyes_tree_not_flattened:
  "map_option child_uuids (entity_of (avatar eye_template) eyes_tree 0) = Some [''u1'']
   \<and> map_option child_uuids (entity_of (avatar eye_template) eyes_tree 0) \<noteq> Some [''u3'']"
  by (simp add: eyes_tree_def child_uuids_def run_simps eye_template_def)

text \<open>
  C3, amended. For every tree of that shape and every component whose only template
  among the four names is the one for \<open>RightEye\<close>: the entity returned for \<open>Scene\<close> has one
  child, the entity of \<open>Hips\<close>; that entity has one child, the clone of the \<open>RightEye\<close>
  template, which wraps \<open>RightEye\<close>; \<open>LeftEye\<close> is pruned and stays a child of \<open>Hips\<close>.
\<close>

theorem inflate_eyes:
  assumes "name scene = ''Scene''" and "children scene = [hips]"
    and "name hips = ''Hips''" and "children hips = [leftEye, rightEye]"
    and "name leftEye = ''LeftEye''" and "children leftEye = []"
    and "name rightEye = ''RightEye''" and "children rightEye = []"
    and "querySelector this ''Scene'' = None" and "querySelector this ''Hips'' = None"
    and "querySelector this ''LeftEye'' = None"
    and "querySelector this ''RightEye'' = Some (Template (Some content))"
  shows "\<exists>sceneEl hipsEl eyeEl.
           entity_of this scene s = Some sceneEl \<and> childNodes sceneEl = [hipsEl]
         \<and> entity_of this hips s = Some hipsEl \<and> childNodes hipsEl = [eyeEl]
         \<and> entity_of this rightEye s = Some eyeEl
         \<and> localName eyeEl = m_localName content
         \<and> childNodes eyeEl = map Cloned (m_childNodes content)
         \<and> uuid (object3D hipsEl) = uuid hips
         \<and> uuid (object3D eyeEl) = uuid rightEye
         \<and> entity_of this leftEye s = None
         \<and> children (node_after this hips s) = [node_after this leftEye s]"
proof -
  have l: "entity_of this leftEye s = None" "calls_after this leftEye s = s"
    using assms by (simp_all add: entity_of_eq calls_after_eq included_def)
  have r: "included this rightEye s"
    using assms by (simp add: included_def)
  then obtain eyeEl where eye: "entity_of this rightEye s = Some eyeEl"
    by (simp add: entity_of_eq)
  have hc: "childrenEntities this (children hips) s = [eyeEl]"
    "live_children this (children hips) s = [node_after this leftEye s]"
    using assms l eye by simp_all
  then have "included this hips s"
    by (simp add: included_def)
  then obtain hipsEl where hip: "entity_of this hips s = Some hipsEl"
    by (simp add: entity_of_eq)
  have sc: "childrenEntities this (children scene) s = [hipsEl]"
    using assms hip by simp
  have "included this scene s"
    using assms by (simp add: included_def)
  then obtain sceneEl where scn: "entity_of this scene s = Some sceneEl"
    by (simp add: entity_of_eq)
  have "childNodes sceneEl = [hipsEl]"
    using entity_sel(3) [OF scn] assms sc by (simp add: shell_def createElement_def)
  moreover have "childNodes hipsEl = [eyeEl]"
    using entity_sel(3) [OF hip] assms hc by (simp add: shell_def createElement_def)
  moreover have "localName eyeEl = m_localName content"
    and "childNodes eyeEl = map Cloned (m_childNodes content)"
    using entity_sel(1,3) [OF eye] assms by (simp_all add: shell_def cloneNode_def)
  moreover have "uuid (object3D hipsEl) = uuid hips" and "uuid (object3D eyeEl) = uuid rightEye"
    using entity_sel(5) [OF hip] entity_sel(5) [OF eye] by simp_all
  moreover have "children (node_after this hips s) = [node_after this leftEye s]"
    using \<open>included this hips s\<close> hc by (simp add: node_after_eq)
  ultimately show ?thesis
    using scn hip eye l by simp
qed

theorem inflate_eyes_witness:
  "\<exists>sceneEl hipsEl eyeEl.
       entity_of (avatar eye_template) eyes_tree 0 = Some sceneEl \<and> childNodes sceneEl = [hipsEl]
     \<and> childNodes hipsEl = [eyeEl]
     \<and> localName eyeEl = ''a-entity''
     \<and> childNodes eyeEl = [Cloned (Markup ''a-sphere'' [] [] [])]
     \<and> uuid (object3D hipsEl) = ''u1''
     \<and> uuid (object3D eyeEl) = ''u3''"
  using inflate_eyes [of eyes_tree
      "sample ''Hips'' ''Bone'' ''u1''
         [sample ''LeftEye'' ''Bone'' ''u2'' [], sample ''RightEye'' ''Bone'' ''u3'' []]"
      "sample ''LeftEye'' ''Bone'' ''u2'' []" "sample ''RightEye'' ''Bone'' ''u3'' []"
      "avatar eye_template" "Markup ''a-entity'' [(''id'', ''eye'')] [] [Markup ''a-sphere'' [] [] []]" 0]
  by (simp add: eyes_tree_def eye_template_def) blast

text \<open>
  C4. The tokens come from \<open>THREE.MathUtils.generateUUID\<close>, which is outside the
  repository; what the code needs of it is the contract of a token generator: the values
  it returns from this call on are different from one another and from every token of the
  tree. Under that contract, for every node that becomes an entity: the entity's group
  has the node's former token; the node's new token is another one, one of those
  generated during the call; the tokens generated during the call are different from one
  another and from all former tokens; the tokens held after the call by all nodes and all
  entity groups are the former tokens and the generated ones, so every generated token is
  held exactly once; and when the former tokens were all different, no two objects share
  a token afterwards.
\<close>

theorem identity_swap:
  "entity_of this node s = Some el \<Longrightarrow>
   inj_on (generateUUID this) {s..} \<Longrightarrow>
   (\<forall>k\<ge>s. generateUUID this k \<notin> set (uuids node)) \<Longrightarrow>
     uuid (object3D el) = uuid node
   \<and> uuid (node_after this node s) \<noteq> uuid node
   \<and> uuid (node_after this node s) \<in> set (generated this node s)
   \<and> distinct (generated this node s)
   \<and> set (generated this node s) \<inter> set (uuids node) = {}
   \<and> mset (tokens_after this node s) = mset (uuids node) + mset (generated this node s)
   \<and> (\<forall>t \<in> set (generated this node s). count (mset (tokens_after this node s)) t = 1)
   \<and> (distinct (uuids node) \<longrightarrow> distinct (tokens_after this node s))"
proof -
  assume el: "entity_of this node s = Some el"
    and inj: "inj_on (generateUUID this) {s..}"
    and fresh: "\<forall>k\<ge>s. generateUUID this k \<notin> set (uuids node)"
  let ?s' = "calls_after_children this (children node) s"
  from el have inc: "included this node s"
    by (simp add: entity_of_eq split: if_splits)
  have le: "s \<le> ?s'" by (rule calls_mono)
  have a: "uuid (object3D el) = uuid node"
    by (rule entity_group(1) [OF el])
  have new: "uuid (node_after this node s) = generateUUID this ?s'"
    using inc by (simp add: node_after_eq)
  have "uuid node \<in> set (uuids node)"
    by (simp add: uuids_eq [of node])
  with fresh le have b: "uuid (node_after this node s) \<noteq> uuid node"
    unfolding new by metis
  have c: "uuid (node_after this node s) \<in> set (generated this node s)"
    using inc le by (simp add: new generated_def calls_after_eq)
  have "inj_on (generateUUID this) (set [s ..< calls_after this node s])"
    by (rule inj_on_subset [OF inj]) auto
  then have d: "distinct (generated this node s)"
    by (simp add: generated_def distinct_map)
  have e: "set (generated this node s) \<inter> set (uuids node) = {}"
    using fresh by (auto simp: generated_def)
  have f: "mset (tokens_after this node s) = mset (uuids node) + mset (generated this node s)"
    by (rule tokens_accounted(1))
  have g: "\<forall>t \<in> set (generated this node s). count (mset (tokens_after this node s)) t = 1"
  proof
    fix t
    assume t: "t \<in> set (generated this node s)"
    with e have "t \<notin> set (uuids node)" by auto
    then have "count (mset (uuids node)) t = 0"
      by (simp add: count_eq_zero_iff)
    moreover from d t have "count (mset (generated this node s)) t = 1"
      by (simp add: distinct_count_atmost_1)
    ultimately show "count (mset (tokens_after this node s)) t = 1"
      by (simp add: f)
  qed
  have h: "distinct (uuids node) \<longrightarrow> distinct (tokens_after this node s)"
  proof
    assume "distinct (uuids node)"
    with d e have "distinct (uuids node @ generated this node s)"
      by auto
    moreover have "mset (tokens_after this node s) = mset (uuids node @ generated this node s)"
      by (simp add: f)
    ultimately show "distinct (tokens_after this node s)"
      by (metis mset_eq_imp_distinct_iff)
  qed
  from a b c d e f g h show ?thesis by blast
qed

theorem identity_swap_witness:
  "\<exists>el. entity_of (avatar eye_template) eyes_tree 0 = Some el
     \<and> uuid (object3D el) = ''u0''
     \<and> uuid (node_after (avatar eye_template) eyes_tree 0) \<noteq> ''u0''
     \<and> distinct (generated (avatar eye_template) eyes_tree 0)
     \<and> distinct (tokens_after (avatar eye_template) eyes_tree 0)"
proof -
  obtain el where el: "entity_of (avatar eye_template) eyes_tree 0 = Some el"
    by (simp add: entity_of_eq included_def eyes_tree_def)
  have inj: "inj_on (generateUUID (avatar eye_template)) {0..}"
  proof (rule inj_onI)
    fix x y :: nat
    assume "generateUUID (avatar eye_template) x = generateUUID (avatar eye_template) y"
    then have "length (replicate (Suc x) CHR ''g'') = length (replicate (Suc y) CHR ''g'')"
      by simp
    then show "x = y" by simp
  qed
  have fresh: "\<forall>k\<ge>0. generateUUID (avatar eye_template) k \<notin> set (uuids eyes_tree)"
    by (simp add: eyes_tree_def)
  have d: "distinct (uuids eyes_tree)"
    by (simp add: eyes_tree_def)
  show ?thesis
    using el d identity_swap [OF el inj fresh] by (simp add: eyes_tree_def)
qed

text \<open>
  C5. Inflating a node named \<open>Scene\<close> always returns an entity, whatever its children and
  whether or not a template is registered for it, and the entity has the attributes
  \<open>position = "0 -0.65 0"\<close> and \<open>rotation = "0 180 0"\<close>. The attributes are set on the
  element after the shell has been chosen, so a template's own values are replaced.
\<close>

theorem inflate_scene:
  "name node = ''Scene'' \<Longrightarrow>
     \<exists>el. entity_of this node s = Some el
       \<and> getAttribute ''position'' el = Some ''0 -0.65 0''
       \<and> getAttribute ''rotation'' el = Some ''0 180 0''"
  by (rule scene_entity)

theorem inflate_scene_witness:
  "\<exists>el. entity_of (avatar no_template) (sample ''Scene'' ''Group'' ''u0'' []) 0 = Some el
       \<and> getAttribute ''position'' el = Some ''0 -0.65 0''
       \<and> getAttribute ''rotation'' el = Some ''0 180 0''"
  using inflate_scene [of "sample ''Scene'' ''Group'' ''u0'' []" "avatar no_template" 0]
  by simp

text \<open>
  C6, as stated, fails when the node's own template brings children with it: the clone
  keeps them, and the entities of the node's children are appended after them. For the
  node \<open>Head\<close> with children \<open>[LeftEye, Nose, RightEye]\<close>, where both eyes qualify and \<open>Nose\<close>
  does not, and a \<open>Head\<close> template that holds an \<open>a-sphere\<close>, the entity has three children.
\<close>

theorem template_children_first:
  "map_option (map Some \<circ> childNodes) (entity_of (avatar face_template) face_tree 0)
     = Some [Some (Cloned (Markup ''a-sphere'' [] [] [])),
             entity_of (avatar face_template) (sample ''LeftEye'' ''Bone'' ''a'' []) 0,
             entity_of (avatar face_template) (sample ''RightEye'' ''Bone'' ''c'' []) 1]
   \<and> map_option (map Some \<circ> childNodes) (entity_of (avatar face_template) face_tree 0)
     \<noteq> Some [entity_of (avatar face_template) (sample ''LeftEye'' ''Bone'' ''a'' []) 0,
             entity_of (avatar face_template) (sample ''RightEye'' ''Bone'' ''c'' []) 1]"
  by (simp add: face_tree_def run_simps face_template_def)

text \<open>
  C6, amended. The children of the returned entity are those of its shell (none for a
  plain entity, the cloned ones for a template) followed by the entities that the calls
  on the node's children returned, in the order of the children as they were when the
  loop started; they correspond one to one, by identity token, to the node's qualifying
  children, and every child is either still a child of the node or has an entity, never
  both and never neither. For children \<open>[A, B, C]\<close> where the calls on \<open>A\<close> and \<open>C\<close> return
  \<open>eA\<close> and \<open>eC\<close> and the call on \<open>B\<close> returns none, the appended children are \<open>[eA, eC]\<close>.
\<close>

theorem children_in_order:
  "entity_of this node s = Some el \<Longrightarrow>
     childNodes el = childNodes (shell this node) @ childrenEntities this (children node) s
   \<and> (querySelector this (name node) = None \<longrightarrow>
        childNodes el = childrenEntities this (children node) s)
   \<and> map (uuid \<circ> object3D) (childrenEntities this (children node) s)
        = map uuid (filter (qualifies this) (children node))
   \<and> length (live_children this (children node) s)
        + length (childrenEntities this (children node) s) = length (children node)
   \<and> (\<forall>A B C eA eC.
         children node = [A, B, C] \<and> entity_of this A s = Some eA
         \<and> entity_of this B (calls_after this A s) = None
         \<and> entity_of this C (calls_after this B (calls_after this A s)) = Some eC
         \<longrightarrow> childNodes el = childNodes (shell this node) @ [eA, eC])"
proof -
  assume el: "entity_of this node s = Some el"
  have a: "childNodes el = childNodes (shell this node) @ childrenEntities this (children node) s"
    by (rule entity_sel(3) [OF el])
  have b: "querySelector this (name node) = None \<longrightarrow>
      childNodes el = childrenEntities this (children node) s"
    by (simp add: a shell_def createElement_def)
  have c: "\<forall>A B C eA eC.
         children node = [A, B, C] \<and> entity_of this A s = Some eA
         \<and> entity_of this B (calls_after this A s) = None
         \<and> entity_of this C (calls_after this B (calls_after this A s)) = Some eC
         \<longrightarrow> childNodes el = childNodes (shell this node) @ [eA, eC]"
    by (simp add: a)
  from a b c show ?thesis
    by (simp add: childrenEntities_uuids loop_length)
qed

theorem children_in_order_witness:
  "\<exists>el. entity_of (avatar eye_template) face_tree 0 = Some el
     \<and> childNodes el = childrenEntities (avatar eye_template) (children face_tree) 0
     \<and> map (uuid \<circ> object3D) (childrenEntities (avatar eye_template) (children face_tree) 0) = [''c'']"
proof -
  obtain el where el: "entity_of (avatar eye_template) face_tree 0 = Some el"
    by (simp add: entity_of_eq included_def face_tree_def eye_template_def)
  note t = children_in_order [OF el]
  have "childNodes el = childrenEntities (avatar eye_template) (children face_tree) 0"
    using t [THEN conjunct2, THEN conjunct1] by (simp add: face_tree_def eye_template_def)
  moreover
  have "map (uuid \<circ> object3D) (childrenEntities (avatar eye_template) (children face_tree) 0)
      = [''c'']"
    using t [THEN conjunct2, THEN conjunct2, THEN conjunct1]
    by (simp add: face_tree_def eye_template_def)
  ultimately show ?thesis
    using el by simp
qed

text \<open>
  C7. A template that is registered for a node's name but has no element. The \<open>_inflate\<close>
  of \<open>readyplayerme-avatar.js\<close> tests \<open>nodeTemplate.content.firstElementChild\<close> (line 82) and
  builds a plain \<open>a-entity\<close>, exactly as it does when no template is found
  (\<open>inflate_empty_template\<close> above). The earlier \<open>_inflate\<close> of \<open>part_000\<close> has no such
  test: on \<open><template data-name="RightEye"></template>\<close> and a childless node named
  \<open>RightEye\<close> it throws, and so does the traversal of any tree that holds such a node.
\<close>

theorem inflate0_empty_template:
  "inflate0 (avatar empty_template) (sample ''RightEye'' ''Bone'' ''u3'' []) 0 = Inl TypeError
   \<and> inflate0 (avatar empty_template) eyes_tree 0 = Inl TypeError
   \<and> map_option localName
        (entity_of (avatar empty_template) (sample ''RightEye'' ''Bone'' ''u3'' []) 0)
       = Some ''a-entity''"
  by (simp add: inflate0.simps eyes_tree_def empty_template_def shell0_def Let_def run_simps)

text \<open>
  C8, as stated, fails: a mesh node that is pruned has had its visibility flag set
  first. With \<open>head = false\<close> and no template, the visible mesh \<open>Wolf3D_Head\<close> is pruned and
  is left hidden.
\<close>

theorem pruned_mesh_hidden:
  "entity_of (avatar no_template) (sample ''Wolf3D_Head'' ''SkinnedMesh'' ''m'' []) 0 = None
   \<and> visible (node_after (avatar no_template) (sample ''Wolf3D_Head'' ''SkinnedMesh'' ''m'' []) 0)
       \<noteq> visible (sample ''Wolf3D_Head'' ''SkinnedMesh'' ''m'' [])"
  by (simp add: run_simps no_template_def set_visibility_def avatar_def sample_def)

text \<open>
  C8, amended. A pruned node is left as the visibility rule leaves it and its subtree: no
  token is generated, and its name, type, position, rotation, quaternion, scale, matrix,
  \<open>matrixAutoUpdate\<close> flag and identity token are as before, as is the number of its
  children (every one of them is pruned too). Its visibility flag is as before unless it
  is a \<open>SkinnedMesh\<close>, and a subtree without a \<open>SkinnedMesh\<close> is left exactly as it was.
\<close>

theorem pruned_node:
  "entity_of this node s = None \<Longrightarrow>
     node_after this node s = set_visibility_deep this node
   \<and> calls_after this node s = s
   \<and> name (node_after this node s) = name node
   \<and> type (node_after this node s) = type node
   \<and> position (node_after this node s) = position node
   \<and> rotation (node_after this node s) = rotation node
   \<and> quaternion (node_after this node s) = quaternion node
   \<and> scale (node_after this node s) = scale node
   \<and> matrix (node_after this node s) = matrix node
   \<and> matrixAutoUpdate (node_after this node s) = matrixAutoUpdate node
   \<and> matrixNeedsUpdate (node_after this node s) = matrixNeedsUpdate node
   \<and> uuid (node_after this node s) = uuid node
   \<and> length (children (node_after this node s)) = length (children node)
   \<and> (type node \<noteq> ''SkinnedMesh'' \<longrightarrow> visible (node_after this node s) = visible node)
   \<and> ((\<forall>m \<in> set (tree_nodes node). type m \<noteq> ''SkinnedMesh'') \<longrightarrow>
          node_after this node s = node)"
proof -
  assume "entity_of this node s = None"
  then have nq: "\<not> qualifies this node"
    using produces_qualifies(1) [of this node s] by simp
  from pruned_untouched(1) [OF nq, of s]
  have a: "node_after this node s = set_visibility_deep this node"
    and b: "calls_after this node s = s"
    by simp_all
  have c: "type node \<noteq> ''SkinnedMesh'' \<longrightarrow> visible (node_after this node s) = visible node"
    by (simp add: a set_visibility_def)
  have d: "(\<forall>m \<in> set (tree_nodes node). type m \<noteq> ''SkinnedMesh'') \<longrightarrow>
           node_after this node s = node"
    by (simp add: a set_visibility_deep_id)
  show ?thesis
    using b c d by (simp add: a)
qed

theorem pruned_node_witness:
  "entity_of (avatar eye_template) (sample ''LeftEye'' ''Bone'' ''u2'' []) 0 = None
   \<and> node_after (avatar eye_template) (sample ''LeftEye'' ''Bone'' ''u2'' []) 0
       = sample ''LeftEye'' ''Bone'' ''u2'' []
   \<and> calls_after (avatar eye_template) (sample ''LeftEye'' ''Bone'' ''u2'' []) 0 = 0"
proof -
  have p: "entity_of (avatar eye_template) (sample ''LeftEye'' ''Bone'' ''u2'' []) 0 = None"
    by (simp add: entity_of_eq included_def eye_template_def)
  show ?thesis
    using p pruned_node [OF p] by (simp add: sample_def set_visibility_def)
qed

text \<open>
  C9. If any node below a node (or the node itself) produces an entity, the node produces
  one; so a pruned node has no entity anywhere below it, and no level is ever skipped: for
  every node \<open>p\<close> of the tree and every child \<open>c\<close> of \<open>p\<close> that produces an entity, the entity
  of \<open>c\<close> is a child of the entity of \<open>p\<close> in the returned element tree.
\<close>

theorem no_level_skipped:
  "(\<forall>m \<in> set (tree_nodes node).
      (\<exists>s' el. entity_of this m s' = Some el) \<longrightarrow> (\<exists>el. entity_of this node s = Some el))
   \<and> (\<forall>rootEl. entity_of this node s = Some rootEl \<longrightarrow>
        (\<forall>p \<in> set (tree_nodes node). \<forall>c \<in> set (children p).
           (\<exists>s' el. entity_of this c s' = Some el) \<longrightarrow>
           (\<exists>sp pEl sc cEl.
              entity_of this p sp = Some pEl \<and> entity_of this c sc = Some cEl
              \<and> pEl \<in> set (tree_elements rootEl) \<and> cEl \<in> set (childNodes pEl)
              \<and> uuid (object3D pEl) = uuid p \<and> uuid (object3D cEl) = uuid c)))
   \<and> (entity_of this node s = None \<longrightarrow>
        (\<forall>m \<in> set (tree_nodes node). \<forall>s'. entity_of this m s' = None))"
proof (intro conjI allI ballI impI)
  fix m
  assume "m \<in> set (tree_nodes node)" and "\<exists>s' el. entity_of this m s' = Some el"
  then have "qualifies this node"
    using produces_qualifies(1) [of this m] qualifies_up [of m node this] by auto
  then show "\<exists>el. entity_of this node s = Some el"
    using produces_qualifies(1) [of this node s] by auto
next
  fix rootEl p c
  assume root: "entity_of this node s = Some rootEl"
    and p: "p \<in> set (tree_nodes node)" and c: "c \<in> set (children p)"
    and "\<exists>s' el. entity_of this c s' = Some el"
  then have qc: "qualifies this c"
    using produces_qualifies(1) [of this c] by auto
  with c have qp: "qualifies this p"
    by (auto simp: qualifies_iff [of this p])
  with embedded(1) [of node this s] p root obtain sp pEl where
    pEl: "entity_of this p sp = Some pEl" "pEl \<in> set (tree_elements rootEl)"
    by auto
  from child_entity [OF c qc, of sp] obtain sc cEl where
    cEl: "entity_of this c sc = Some cEl" "cEl \<in> set (childrenEntities this (children p) sp)"
    by blast
  from cEl(2) have "cEl \<in> set (childNodes pEl)"
    by (simp add: entity_sel(3) [OF pEl(1)])
  with pEl cEl(1) entity_group(1) [OF pEl(1)] entity_group(1) [OF cEl(1)]
  show "\<exists>sp pEl sc cEl.
      entity_of this p sp = Some pEl \<and> entity_of this c sc = Some cEl
      \<and> pEl \<in> set (tree_elements rootEl) \<and> cEl \<in> set (childNodes pEl)
      \<and> uuid (object3D pEl) = uuid p \<and> uuid (object3D cEl) = uuid c"
    by blast
next
  fix m s'
  assume "entity_of this node s = None" and m: "m \<in> set (tree_nodes node)"
  then have "\<not> qualifies this node"
    using produces_qualifies(1) [of this node s] by simp
  with m have "\<not> qualifies this m"
    using qualifies_up [of m node this] by blast
  then show "entity_of this m s' = None"
    using produces_qualifies(1) [of this m s'] by simp
qed

theorem no_level_skipped_witness:
  "\<exists>rootEl pEl cEl.
     entity_of (avatar eye_template) eyes_tree 0 = Some rootEl
     \<and> pEl \<in> set (tree_elements rootEl) \<and> cEl \<in> set (childNodes pEl)
     \<and> uuid (object3D pEl) = ''u1'' \<and> uuid (object3D cEl) = ''u3''"
proof -
  let ?eye = "sample ''RightEye'' ''Bone'' ''u3'' []"
  let ?hips = "sample ''Hips'' ''Bone'' ''u1'' [sample ''LeftEye'' ''Bone'' ''u2'' [], ?eye]"
  obtain rootEl where root: "entity_of (avatar eye_template) eyes_tree 0 = Some rootEl"
    by (simp add: entity_of_eq included_def eyes_tree_def)
  have p: "?hips \<in> set (tree_nodes eyes_tree)"
    by (simp add: eyes_tree_def sample_def)
  have c: "?eye \<in> set (children ?hips)"
    by simp
  have e: "\<exists>s' el. entity_of (avatar eye_template) ?eye s' = Some el"
    by (simp add: entity_of_eq included_def eye_template_def)
  from no_level_skipped [of eyes_tree "avatar eye_template" 0,
      THEN conjunct2, THEN conjunct1, rule_format, OF root p c e]
  show ?thesis
    using root by auto
qed

text \<open>
  C10. The root is recognised by its name alone. Every node named \<open>Scene\<close>, wherever it is
  in the tree, gets an entity; that entity is in the element tree returned for the root,
  it stands for that node (its group has the node's token and name) and it has the
  attributes \<open>position = "0 -0.65 0"\<close> and \<open>rotation = "0 180 0"\<close>.
\<close>

theorem scene_at_any_depth:
  "m \<in> set (tree_nodes node) \<Longrightarrow> name m = ''Scene'' \<Longrightarrow>
     \<exists>rootEl sm el.
       entity_of this node s = Some rootEl \<and> entity_of this m sm = Some el
       \<and> el \<in> set (tree_elements rootEl)
       \<and> getAttribute ''position'' el = Some ''0 -0.65 0''
       \<and> getAttribute ''rotation'' el = Some ''0 180 0''
       \<and> uuid (object3D el) = uuid m \<and> name (object3D el) = ''Scene''"
proof -
  assume m: "m \<in> set (tree_nodes node)" and scene: "name m = ''Scene''"
  then have "qualifies this m"
    by (simp add: qualifies_iff [of this m])
  with embedded(1) [of node this s] m obtain sm el rootEl where
    el: "entity_of this m sm = Some el" and root: "entity_of this node s = Some rootEl"
    and sub: "el \<in> set (tree_elements rootEl)"
    by blast
  from scene_entity [OF scene, of this sm] el
  have "getAttribute ''position'' el = Some ''0 -0.65 0''"
    and "getAttribute ''rotation'' el = Some ''0 180 0''"
    by simp_all
  with el root sub entity_group [OF el] scene show ?thesis
    by auto
qed

theorem scene_at_any_depth_witness:
  "\<exists>rootEl el.
     entity_of (avatar no_template) nested_scene 0 = Some rootEl
     \<and> el \<in> set (tree_elements rootEl)
     \<and> getAttribute ''position'' el = Some ''0 -0.65 0''
     \<and> getAttribute ''rotation'' el = Some ''0 180 0''
     \<and> uuid (object3D el) = ''n''"
proof -
  have m: "sample ''Scene'' ''Group'' ''n'' [] \<in> set (tree_nodes nested_scene)"
    by (simp add: nested_scene_def sample_def)
  from scene_at_any_depth [OF m, of "avatar no_template" 0]
  show ?thesis by auto
qed

end
